theory Spec2Isabelle
  imports Main "HOL-Library.Log_Nat"
begin

section \<open>JavaScript numbers\<close>

text \<open>
  Every \<open>number\<close> of the game is an IEEE-754 binary64 value. The finite ones are rationals,
  and \<open>+\<close>, \<open>-\<close> and \<open>*\<close> return the exact result rounded to the nearest binary64 value,
  ties to the even mantissa. \<open>fl\<close> is that rounding: 53 bits of mantissa, exponent at
  least \<open>-1022\<close> (below it the spacing of the subnormals). Infinities and NaN are left out:
  no operation of the game divides, and its magnitudes stay far below \<open>2 ^ 1024\<close>.
  A decimal literal of the source such as \<open>0.0001\<close> is \<open>fl (1/10000)\<close>.
\<close>

definition pow2 :: "int \<Rightarrow> rat" where
  "pow2 e = (if 0 \<le> e then 2 ^ nat e else 1 / 2 ^ nat (- e))"

definition rne :: "rat \<Rightarrow> int" where
  "rne q = (let f = \<lfloor>q\<rfloor>; d = q - of_int f in
     if d < 1/2 then f else if 1/2 < d then f + 1 else if even f then f else f + 1)"

definition expo :: "rat \<Rightarrow> int" where
  "expo q = (let (a, b) = quotient_of \<bar>q\<bar>; e = bitlen a - bitlen b in
     if pow2 e \<le> \<bar>q\<bar> then e else e - 1)"

definition fl :: "rat \<Rightarrow> rat" where
  "fl q = (if q = 0 then 0 else
     let u = pow2 (max (expo q) (- 1022) - 52) in of_int (rne (q / u)) * u)"

definition fadd :: "rat \<Rightarrow> rat \<Rightarrow> rat" where
  "fadd x y = fl (x + y)"

definition fsub :: "rat \<Rightarrow> rat \<Rightarrow> rat" where
  "fsub x y = fl (x - y)"

definition fmul :: "rat \<Rightarrow> rat \<Rightarrow> rat" where
  "fmul x y = fl (x * y)"

section \<open>The state of the component \<open>Game3D\<close>\<close>

text \<open>
  \<open>game_state\<close> is the object held by \<open>stateRef\<close>. \<open>score\<close> and \<open>lane\<close> only ever hold
  small integers (they change by \<open>+= 1\<close>, \<open>++\<close> and \<open>--\<close>, which are exact below \<open>2 ^ 53\<close>),
  so they are integers here; the other numeric fields are binary64 values.
\<close>

record game_state =
  score :: int
  speed :: rat
  distance :: rat
  lane :: int
  isRunning :: bool
  isGameOver :: bool
  isJumping :: bool
  jumpVelocity :: rat
  cameraOffset :: rat

text \<open>The part of a \<open>THREE.Mesh\<close> that the game logic reads or writes: its position and
  its rotation about the y axis.\<close>

record mesh =
  px :: rat
  py :: rat
  pz :: rat
  roty :: rat

text \<open>The two callbacks of the props, as entries of a log (oldest first).\<close>

datatype callback = OnGameOver int | OnUpdateStats int rat rat

text \<open>
  The mutable refs of the component. \<open>animate\<close> is first scheduled by the effect that
  builds the scene, after \<open>sceneRef\<close>, \<open>cameraRef\<close>, \<open>rendererRef\<close>, \<open>runnerRef\<close>,
  \<open>runnerPartsRef\<close> and \<open>trackRef\<close> have been assigned, and none of them is assigned again:
  the world below is the mounted component, where these refs are not null.
  \<open>runnerX\<close> and \<open>runnerY\<close> are \<open>runnerRef.current.position\<close>, \<open>scenery\<close> holds the z
  coordinates of \<open>sceneryRef.current\<close>, \<open>trackZ\<close> is \<open>trackRef.current.position.z\<close>.
  The limb animation, the camera and the renderer touch only objects that the game logic
  never reads, and the sound effects change no state; they are not part of the world.
\<close>

record world =
  st :: game_state
  runnerX :: rat
  runnerY :: rat
  obstacles :: "mesh list"
  coins :: "mesh list"
  scenery :: "rat list"
  trackZ :: rat
  calls :: "callback list"

text \<open>The values of \<open>Math.random()\<close> that one call of \<open>animate\<close> may draw, in the order
  of the source: the obstacle trial, the obstacle's lane, the coin trial, the coin's lane.\<close>

record draws =
  obstacleTrial :: rat
  obstacleLane :: rat
  coinTrial :: rat
  coinLane :: rat

definition initialState :: game_state where
  "initialState = \<lparr>score = 0, speed = 1/2, distance = 0, lane = 0, isRunning = False,
     isGameOver = False, isJumping = False, jumpVelocity = 0, cameraOffset = 0\<rparr>"

definition initialWorld :: "rat list \<Rightarrow> world" where
  "initialWorld sc = \<lparr>st = initialState, runnerX = 0, runnerY = 0, obstacles = [],
     coins = [], scenery = sc, trackZ = - 500, calls = []\<rparr>"

section \<open>The actions\<close>

definition startGame :: "world \<Rightarrow> world" where
  "startGame w = w\<lparr>st := (st w)\<lparr>isRunning := True, isGameOver := False\<rparr>\<rparr>"

definition resetGame :: "world \<Rightarrow> world" where
  "resetGame w = w\<lparr>st := \<lparr>score = 0, speed = 1/2, distance = 0, lane = 0, isRunning = True,
       isGameOver = False, isJumping = False, jumpVelocity = 0, cameraOffset = 0\<rparr>,
     runnerX := 0, runnerY := 0, obstacles := [], coins := []\<rparr>"

definition moveLeft :: "world \<Rightarrow> world" where
  "moveLeft w = (if - 1 < lane (st w) \<and> \<not> isGameOver (st w)
     then w\<lparr>st := (st w)\<lparr>lane := lane (st w) - 1\<rparr>\<rparr> else w)"

definition moveRight :: "world \<Rightarrow> world" where
  "moveRight w = (if lane (st w) < 1 \<and> \<not> isGameOver (st w)
     then w\<lparr>st := (st w)\<lparr>lane := lane (st w) + 1\<rparr>\<rparr> else w)"

definition jump :: "world \<Rightarrow> world" where
  "jump w = (if \<not> isJumping (st w) \<and> \<not> isGameOver (st w)
     then w\<lparr>st := (st w)\<lparr>isJumping := True, jumpVelocity := fl (4/10)\<rparr>\<rparr> else w)"

definition gameOver :: "world \<Rightarrow> world" where
  "gameOver w = w\<lparr>st := (st w)\<lparr>isRunning := False, isGameOver := True\<rparr>,
     calls := calls w @ [OnGameOver (score (st w))]\<rparr>"

section \<open>The main loop\<close>

text \<open>\<open>spawnObstacle\<close> and \<open>spawnCoin\<close>: the lane is \<open>Math.floor(Math.random() * 3) - 1\<close>.\<close>

definition spawnObstacle :: "rat \<Rightarrow> world \<Rightarrow> world" where
  "spawnObstacle r w =
     (let ln = \<lfloor>fmul r 3\<rfloor> - 1 in
      w\<lparr>obstacles := obstacles w @
        [\<lparr>px = fmul (of_int ln) 5, py = 1, pz = - 150, roty = 0\<rparr>]\<rparr>)"

definition spawnCoin :: "rat \<Rightarrow> world \<Rightarrow> world" where
  "spawnCoin r w =
     (let ln = \<lfloor>fmul r 3\<rfloor> - 1 in
      w\<lparr>coins := coins w @
        [\<lparr>px = fmul (of_int ln) 5, py = 3/2, pz = - 150, roty = 0\<rparr>]\<rparr>)"

text \<open>\<open>xs.splice(i, 1)\<close>.\<close>

definition splice1 :: "nat \<Rightarrow> 'a list \<Rightarrow> 'a list" where
  "splice1 i xs = take i xs @ drop (Suc i) xs"

text \<open>The body of the obstacle loop, in its parts: the translation of the obstacle
  (\<open>ob.position.z += speed\<close>) and the collision test made on the translated obstacle.\<close>

definition moveObstacle :: "rat \<Rightarrow> mesh \<Rightarrow> mesh" where
  "moveObstacle sp ob = ob\<lparr>pz := fadd (pz ob) sp\<rparr>"

definition obstacleHit :: "rat \<Rightarrow> rat \<Rightarrow> mesh \<Rightarrow> bool" where
  "obstacleHit rx ry ob \<longleftrightarrow>
     - 2 < pz ob \<and> pz ob < 2 \<and> \<bar>fsub (px ob) rx\<bar> < 2 \<and> ry < fl (18/10)"

text \<open>
  \<open>for (let i = obstaclesRef.current.length - 1; i >= 0; i--)\<close>: \<open>obstacleLoop (Suc i)\<close>
  runs the body at index \<open>i\<close> and goes on with the indices below it.
\<close>

fun obstacleLoop :: "nat \<Rightarrow> rat \<Rightarrow> world \<Rightarrow> world" where
  "obstacleLoop 0 sp w = w"
| "obstacleLoop (Suc i) sp w =
     (let ob = moveObstacle sp (obstacles w ! i);
          w1 = w\<lparr>obstacles := (obstacles w)[i := ob]\<rparr>;
          w2 = (if obstacleHit (runnerX w1) (runnerY w1) ob then gameOver w1 else w1);
          w3 = (if 10 < pz ob then w2\<lparr>obstacles := splice1 i (obstacles w2)\<rparr> else w2)
      in obstacleLoop i sp w3)"

definition moveCoin :: "rat \<Rightarrow> mesh \<Rightarrow> mesh" where
  "moveCoin sp coin = coin\<lparr>pz := fadd (pz coin) sp, roty := fadd (roty coin) (fl (1/10))\<rparr>"

definition coinHit :: "rat \<Rightarrow> rat \<Rightarrow> mesh \<Rightarrow> bool" where
  "coinHit rx ry coin \<longleftrightarrow>
     - (3/2) < pz coin \<and> pz coin < 3/2 \<and> \<bar>fsub (px coin) rx\<bar> < 3/2 \<and>
     \<bar>fsub (fsub (py coin) ry) 1\<bar> < 5/2"

fun coinLoop :: "nat \<Rightarrow> rat \<Rightarrow> world \<Rightarrow> world" where
  "coinLoop 0 sp w = w"
| "coinLoop (Suc i) sp w =
     (let coin = moveCoin sp (coins w ! i);
          w1 = w\<lparr>coins := (coins w)[i := coin]\<rparr>
      in if coinHit (runnerX w1) (runnerY w1) coin
         then coinLoop i sp (w1\<lparr>st := (st w1)\<lparr>score := score (st w1) + 1\<rparr>,
                                coins := splice1 i (coins w1)\<rparr>)
         else coinLoop i sp
                (if 10 < pz coin then w1\<lparr>coins := splice1 i (coins w1)\<rparr> else w1))"

text \<open>Part 2 of \<open>animate\<close>, which runs in every state: the runner glides towards its
  lane and the jump is integrated.\<close>

definition moveRunner :: "world \<Rightarrow> world" where
  "moveRunner w =
     (let targetX = fmul (of_int (lane (st w))) 5;
          w1 = w\<lparr>runnerX := fadd (runnerX w) (fmul (fsub targetX (runnerX w)) (fl (15/100)))\<rparr>
      in if isJumping (st w1)
         then (let w2 = w1\<lparr>runnerY := fadd (runnerY w1) (jumpVelocity (st w1))\<rparr>;
                   w3 = w2\<lparr>st := (st w2)\<lparr>jumpVelocity := fsub (jumpVelocity (st w2)) (fl (2/100))\<rparr>\<rparr>
               in if runnerY w3 \<le> 0
                  then w3\<lparr>runnerY := 0, st := (st w3)\<lparr>isJumping := False\<rparr>\<rparr>
                  else w3)
         else w1)"

text \<open>Part 3 of \<open>animate\<close>, the gameplay logic after the guard: the scenery and the
  track scroll, the two spawn trials are made, the obstacles and then the coins are
  processed, and the statistics are updated and reported.\<close>

definition moveScenery :: "rat \<Rightarrow> rat \<Rightarrow> rat" where
  "moveScenery sp z = (let z1 = fadd z sp in if 20 < z1 then - 1000 else z1)"

definition moveTrack :: "rat \<Rightarrow> rat \<Rightarrow> rat" where
  "moveTrack sp z = (let z1 = fadd z sp in if 0 < z1 then - 500 else z1)"

definition updateStats :: "rat \<Rightarrow> world \<Rightarrow> world" where
  "updateStats sp w =
     (let w1 = w\<lparr>st := (st w)\<lparr>distance := fadd (distance (st w)) sp\<rparr>\<rparr>;
          w2 = (if speed (st w1) < fl (12/10)
                then w1\<lparr>st := (st w1)\<lparr>speed := fadd (speed (st w1)) (fl (1/10000))\<rparr>\<rparr>
                else w1)
      in w2\<lparr>calls := calls w2 @
           [OnUpdateStats (score (st w2)) (speed (st w2)) (distance (st w2))]\<rparr>)"

definition scroll :: "world \<Rightarrow> world" where
  "scroll w =
     (let sp = speed (st w)
      in w\<lparr>scenery := map (moveScenery sp) (scenery w), trackZ := moveTrack sp (trackZ w)\<rparr>)"

definition spawn :: "draws \<Rightarrow> world \<Rightarrow> world" where
  "spawn d w =
     (let w1 = (if obstacleTrial d < fl (2/100) then spawnObstacle (obstacleLane d) w else w)
      in if coinTrial d < fl (3/100) then spawnCoin (coinLane d) w1 else w1)"

definition gameplay :: "draws \<Rightarrow> world \<Rightarrow> world" where
  "gameplay d w =
     (let sp = speed (st w);
          w1 = scroll w;
          w2 = spawn d w1;
          w3 = obstacleLoop (length (obstacles w2)) sp w2;
          w4 = coinLoop (length (coins w3)) sp w3
      in updateStats sp w4)"

definition animate :: "draws \<Rightarrow> world \<Rightarrow> world" where
  "animate d w =
     (let w1 = moveRunner w
      in if \<not> isRunning (st w1) \<or> isGameOver (st w1) then w1 else gameplay d w1)"

text \<open>What the user interface and the frame callback can do to the component.\<close>

datatype action = MoveLeft | MoveRight | Jump | StartGame | ResetGame | Animate draws

fun perform :: "action \<Rightarrow> world \<Rightarrow> world" where
  "perform MoveLeft w = moveLeft w"
| "perform MoveRight w = moveRight w"
| "perform Jump w = jump w"
| "perform StartGame w = startGame w"
| "perform ResetGame w = resetGame w"
| "perform (Animate d) w = animate d w"

fun run :: "action list \<Rightarrow> world \<Rightarrow> world" where
  "run [] w = w"
| "run (a # as) w = run as (perform a w)"


section \<open>Vocabulary of the properties\<close>

text \<open>The three states of the runner: idle, running, game over.\<close>

definition running :: "world \<Rightarrow> bool" where
  "running w \<longleftrightarrow> isRunning (st w) \<and> \<not> isGameOver (st w)"

definition idle :: "world \<Rightarrow> bool" where
  "idle w \<longleftrightarrow> \<not> isRunning (st w) \<and> \<not> isGameOver (st w)"

fun isGameOverCall :: "callback \<Rightarrow> bool" where
  "isGameOverCall (OnGameOver n) = True"
| "isGameOverCall (OnUpdateStats n s d) = False"

fun isStatsCall :: "callback \<Rightarrow> bool" where
  "isStatsCall (OnGameOver n) = False"
| "isStatsCall (OnUpdateStats n s d) = True"

text \<open>How many of the obstacles \<open>obs\<close>, once translated by \<open>sp\<close>, collide with the runner
  of \<open>w\<close>; the same for coins, and the coins that stay in the store.\<close>

definition hitCount :: "rat \<Rightarrow> world \<Rightarrow> mesh list \<Rightarrow> nat" where
  "hitCount sp w obs =
     length (filter (obstacleHit (runnerX w) (runnerY w)) (map (moveObstacle sp) obs))"

definition coinCount :: "rat \<Rightarrow> world \<Rightarrow> mesh list \<Rightarrow> nat" where
  "coinCount sp w cs =
     length (filter (coinHit (runnerX w) (runnerY w)) (map (moveCoin sp) cs))"

definition coinsKept :: "rat \<Rightarrow> world \<Rightarrow> mesh list \<Rightarrow> mesh list" where
  "coinsKept sp w cs =
     filter (\<lambda>c. \<not> coinHit (runnerX w) (runnerY w) c \<and> \<not> 10 < pz c) (map (moveCoin sp) cs)"

definition addScore :: "int \<Rightarrow> world \<Rightarrow> world" where
  "addScore n w = w\<lparr>st := (st w)\<lparr>score := score (st w) + n\<rparr>\<rparr>"

text \<open>The speed ramp of \<open>updateStats\<close> on its own.\<close>

definition rampSpeed :: "rat \<Rightarrow> rat" where
  "rampSpeed s = (if s < fl (12/10) then fadd s (fl (1/10000)) else s)"

text \<open>Draws under which nothing spawns.\<close>

definition quiet :: draws where
  "quiet = \<lparr>obstacleTrial = 1/2, obstacleLane = 0, coinTrial = 1/2, coinLane = 0\<rparr>"

text \<open>Four concrete worlds in the running state, at the initial speed \<open>0.5\<close>:
  \<open>grazing\<close>, with the runner at rest in the middle lane and one obstacle of that lane just
  outside the collision band; \<open>doubleCrash\<close>, with two obstacles of the middle lane half a
  unit apart inside the band and the runner gliding into that lane, still \<open>2.25\<close> away
  from its centre; \<open>coinAhead\<close>, with the runner at rest and two coins of its lane, one
  far and one about to be reached; \<open>sideSwipe\<close>, with the obstacle of \<open>grazing\<close> and the
  runner gliding out of the middle lane, \<open>1\<close> away from its centre.\<close>

definition grazing :: world where
  "grazing = \<lparr>st = initialState\<lparr>isRunning := True\<rparr>, runnerX = 0, runnerY = 0,
     obstacles = [\<lparr>px = 0, py = 1, pz = - (9/4), roty = 0\<rparr>], coins = [], scenery = [],
     trackZ = - 500, calls = []\<rparr>"

definition doubleCrash :: world where
  "doubleCrash = \<lparr>st = initialState\<lparr>score := 7, isRunning := True\<rparr>, runnerX = 9/4, runnerY = 0,
     obstacles = [\<lparr>px = 0, py = 1, pz = - 1, roty = 0\<rparr>, \<lparr>px = 0, py = 1, pz = - (3/2), roty = 0\<rparr>],
     coins = [], scenery = [], trackZ = - 500, calls = []\<rparr>"

definition coinAhead :: world where
  "coinAhead = \<lparr>st = initialState\<lparr>isRunning := True\<rparr>, runnerX = 0, runnerY = 0,
     obstacles = [],
     coins = [\<lparr>px = 0, py = 3/2, pz = - 100, roty = 0\<rparr>, \<lparr>px = 0, py = 3/2, pz = - 1, roty = 0\<rparr>],
     scenery = [], trackZ = - 500, calls = []\<rparr>"

definition sideSwipe :: world where
  "sideSwipe = \<lparr>st = initialState\<lparr>lane := 1, isRunning := True\<rparr>, runnerX = 1, runnerY = 0,
     obstacles = [\<lparr>px = 0, py = 1, pz = - (9/4), roty = 0\<rparr>], coins = [], scenery = [],
     trackZ = - 500, calls = []\<rparr>"

section \<open>The two entity loops\<close>

lemma gameOver_obstacles_update:
  "gameOver (w\<lparr>obstacles := xs\<rparr>) = (gameOver w)\<lparr>obstacles := xs\<rparr>"
  by (simp add: gameOver_def)

lemma gameOver_sel:
  "st (gameOver w) = (st w)\<lparr>isRunning := False, isGameOver := True\<rparr>"
  "calls (gameOver w) = calls w @ [OnGameOver (score (st w))]"
  "runnerX (gameOver w) = runnerX w"
  "runnerY (gameOver w) = runnerY w"
  "obstacles (gameOver w) = obstacles w"
  "coins (gameOver w) = coins w"
  "scenery (gameOver w) = scenery w"
  "trackZ (gameOver w) = trackZ w"
  by (simp_all add: gameOver_def)

lemma gameOver_pow_obstacles_update:
  "(gameOver ^^ k) (w\<lparr>obstacles := xs\<rparr>) = ((gameOver ^^ k) w)\<lparr>obstacles := xs\<rparr>"
  by (induction k) (simp_all add: gameOver_obstacles_update)

lemma gameOver_pow_frame:
  "runnerX ((gameOver ^^ k) w) = runnerX w"
  "runnerY ((gameOver ^^ k) w) = runnerY w"
  "obstacles ((gameOver ^^ k) w) = obstacles w"
  "coins ((gameOver ^^ k) w) = coins w"
  "scenery ((gameOver ^^ k) w) = scenery w"
  "trackZ ((gameOver ^^ k) w) = trackZ w"
  by (induction k) (simp_all add: gameOver_sel)

lemma gameOver_pow_st:
  "st ((gameOver ^^ k) w) =
     (if k = 0 then st w else (st w)\<lparr>isRunning := False, isGameOver := True\<rparr>)"
  by (induction k) (simp_all add: gameOver_sel)

lemma gameOver_pow_calls:
  "calls ((gameOver ^^ k) w) = calls w @ replicate k (OnGameOver (score (st w)))"
proof (induction k)
  case 0
  show ?case by simp
next
  case (Suc k)
  have "score (st ((gameOver ^^ k) w)) = score (st w)"
    by (simp add: gameOver_pow_st)
  with Suc show ?case
    by (simp add: gameOver_sel replicate_append_same)
qed

lemma obstacleLoop_split:
  "obstacles w = pre @ suf \<Longrightarrow> length pre = i \<Longrightarrow>
   obstacleLoop i sp w =
     (gameOver ^^ hitCount sp w pre)
       (w\<lparr>obstacles := filter (\<lambda>ob. \<not> 10 < pz ob) (map (moveObstacle sp) pre) @ suf\<rparr>)"
proof (induction i arbitrary: w pre suf)
  case 0
  then show ?case by (simp add: hitCount_def)
next
  case (Suc i)
  then obtain pre' a where pre: "pre = pre' @ [a]" and len: "length pre' = i"
    by (metis length_Suc_conv_rev)
  let ?ob = "moveObstacle sp a"
  let ?w1 = "w\<lparr>obstacles := pre' @ ?ob # suf\<rparr>"
  let ?w2 = "if obstacleHit (runnerX w) (runnerY w) ?ob then gameOver ?w1 else ?w1"
  let ?suf = "if 10 < pz ?ob then suf else ?ob # suf"
  let ?w3 = "?w2\<lparr>obstacles := pre' @ ?suf\<rparr>"
  have nth: "obstacles w ! i = a" using Suc.prems pre len by (simp add: nth_append)
  have upd: "(obstacles w)[i := ?ob] = pre' @ ?ob # suf"
    using Suc.prems pre len by (simp add: list_update_append)
  have spl: "splice1 i (pre' @ ?ob # suf) = pre' @ suf"
    using len by (simp add: splice1_def)
  have step: "obstacleLoop (Suc i) sp w = obstacleLoop i sp ?w3"
    using nth upd spl by (simp add: Let_def gameOver_sel gameOver_obstacles_update)
  have obs3: "obstacles ?w3 = pre' @ ?suf" by simp
  have r3: "runnerX ?w3 = runnerX w" "runnerY ?w3 = runnerY w"
    by (simp_all add: gameOver_sel)
  have "obstacleLoop i sp ?w3 =
     (gameOver ^^ hitCount sp ?w3 pre')
       (?w3\<lparr>obstacles := filter (\<lambda>ob. \<not> 10 < pz ob) (map (moveObstacle sp) pre') @ ?suf\<rparr>)"
    by (rule Suc.IH [OF obs3 len])
  also have "hitCount sp ?w3 pre' = hitCount sp w pre'"
    by (simp add: hitCount_def r3)
  finally have ih: "obstacleLoop i sp ?w3 =
     (gameOver ^^ hitCount sp w pre')
       (?w3\<lparr>obstacles := filter (\<lambda>ob. \<not> 10 < pz ob) (map (moveObstacle sp) pre') @ ?suf\<rparr>)" .
  show ?case
  proof (cases "obstacleHit (runnerX w) (runnerY w) ?ob")
    case True
    then have hc: "hitCount sp w pre = Suc (hitCount sp w pre')"
      by (simp add: hitCount_def pre)
    show ?thesis
      unfolding step ih hc using True
      by (simp add: pre gameOver_obstacles_update gameOver_pow_obstacles_update funpow_swap1)
  next
    case False
    then have hc: "hitCount sp w pre = hitCount sp w pre'"
      by (simp add: hitCount_def pre)
    show ?thesis
      unfolding step ih hc using False
      by (simp add: pre)
  qed
qed


lemma addScore_sel:
  "st (addScore n w) = (st w)\<lparr>score := score (st w) + n\<rparr>"
  "calls (addScore n w) = calls w"
  "runnerX (addScore n w) = runnerX w"
  "runnerY (addScore n w) = runnerY w"
  "obstacles (addScore n w) = obstacles w"
  "coins (addScore n w) = coins w"
  "scenery (addScore n w) = scenery w"
  "trackZ (addScore n w) = trackZ w"
  by (simp_all add: addScore_def)

lemma addScore_coins_update:
  "addScore n (w\<lparr>coins := xs\<rparr>) = (addScore n w)\<lparr>coins := xs\<rparr>"
  by (simp add: addScore_def)

lemma addScore_addScore: "addScore m (addScore n w) = addScore (n + m) w"
  by (simp add: addScore_def add.assoc)

lemma addScore_zero: "addScore 0 w = w"
  by (simp add: addScore_def)

lemma coinLoop_split:
  "coins w = pre @ suf \<Longrightarrow> length pre = i \<Longrightarrow>
   coinLoop i sp w =
     addScore (int (coinCount sp w pre)) (w\<lparr>coins := coinsKept sp w pre @ suf\<rparr>)"
proof (induction i arbitrary: w pre suf)
  case 0
  then show ?case by (simp add: coinCount_def coinsKept_def addScore_zero)
next
  case (Suc i)
  then obtain pre' a where pre: "pre = pre' @ [a]" and len: "length pre' = i"
    by (metis length_Suc_conv_rev)
  let ?c = "moveCoin sp a"
  have nth: "coins w ! i = a" using Suc.prems pre len by (simp add: nth_append)
  have upd: "(coins w)[i := ?c] = pre' @ ?c # suf"
    using Suc.prems pre len by (simp add: list_update_append)
  have spl: "splice1 i (pre' @ ?c # suf) = pre' @ suf"
    using len by (simp add: splice1_def)
  show ?case
  proof (cases "coinHit (runnerX w) (runnerY w) ?c")
    case True
    let ?w3 = "addScore 1 (w\<lparr>coins := pre' @ suf\<rparr>)"
    have e: "w\<lparr>coins := pre' @ ?c # suf\<rparr>
        \<lparr>st := (st w)\<lparr>score := score (st w) + 1\<rparr>, coins := pre' @ suf\<rparr> = ?w3"
      by (simp add: addScore_def)
    have step: "coinLoop (Suc i) sp w = coinLoop i sp ?w3"
      using nth upd spl True e by (simp add: Let_def)
    have c3: "coins ?w3 = pre' @ suf" by (simp add: addScore_sel)
    have r3: "runnerX ?w3 = runnerX w" "runnerY ?w3 = runnerY w"
      by (simp_all add: addScore_sel)
    have ih: "coinLoop i sp ?w3 =
        addScore (int (coinCount sp ?w3 pre')) (?w3\<lparr>coins := coinsKept sp ?w3 pre' @ suf\<rparr>)"
      by (rule Suc.IH [OF c3 len])
    have cc: "coinCount sp ?w3 pre' = coinCount sp w pre'"
      "coinsKept sp ?w3 pre' = coinsKept sp w pre'"
      by (simp_all add: coinCount_def coinsKept_def r3)
    have n: "coinCount sp w pre = Suc (coinCount sp w pre')"
      "coinsKept sp w pre = coinsKept sp w pre'"
      using True by (simp_all add: coinCount_def coinsKept_def pre)
    show ?thesis
      unfolding step ih cc n
      by (simp add: addScore_coins_update addScore_addScore)
  next
    case False
    let ?suf = "if 10 < pz ?c then suf else ?c # suf"
    let ?w3 = "w\<lparr>coins := pre' @ ?suf\<rparr>"
    have step: "coinLoop (Suc i) sp w = coinLoop i sp ?w3"
      using nth upd spl False by (simp add: Let_def)
    have c3: "coins ?w3 = pre' @ ?suf" by simp
    have ih: "coinLoop i sp ?w3 =
        addScore (int (coinCount sp ?w3 pre')) (?w3\<lparr>coins := coinsKept sp ?w3 pre' @ ?suf\<rparr>)"
      by (rule Suc.IH [OF c3 len])
    have cc: "coinCount sp ?w3 pre' = coinCount sp w pre'"
      "coinsKept sp ?w3 pre' = coinsKept sp w pre'"
      by (simp_all add: coinCount_def coinsKept_def)
    have n: "coinCount sp w pre = coinCount sp w pre'"
      "coinsKept sp w pre @ suf = coinsKept sp w pre' @ ?suf"
      using False by (simp_all add: coinCount_def coinsKept_def pre)
    show ?thesis
      unfolding step ih cc n by simp
  qed
qed

section \<open>One tick\<close>

lemma moveRunner_frame:
  "score (st (moveRunner w)) = score (st w)"
  "speed (st (moveRunner w)) = speed (st w)"
  "distance (st (moveRunner w)) = distance (st w)"
  "lane (st (moveRunner w)) = lane (st w)"
  "isRunning (st (moveRunner w)) = isRunning (st w)"
  "isGameOver (st (moveRunner w)) = isGameOver (st w)"
  "obstacles (moveRunner w) = obstacles w"
  "coins (moveRunner w) = coins w"
  "scenery (moveRunner w) = scenery w"
  "trackZ (moveRunner w) = trackZ w"
  "calls (moveRunner w) = calls w"
  by (simp_all add: moveRunner_def Let_def)

lemma scroll_frame:
  "st (scroll w) = st w"
  "runnerX (scroll w) = runnerX w"
  "runnerY (scroll w) = runnerY w"
  "obstacles (scroll w) = obstacles w"
  "coins (scroll w) = coins w"
  "calls (scroll w) = calls w"
  by (simp_all add: scroll_def Let_def)

lemma spawn_frame:
  "st (spawn d w) = st w"
  "runnerX (spawn d w) = runnerX w"
  "runnerY (spawn d w) = runnerY w"
  "scenery (spawn d w) = scenery w"
  "trackZ (spawn d w) = trackZ w"
  "calls (spawn d w) = calls w"
  by (simp_all add: spawn_def spawnObstacle_def spawnCoin_def Let_def)

lemma updateStats_sel:
  "score (st (updateStats sp w)) = score (st w)"
  "speed (st (updateStats sp w)) = rampSpeed (speed (st w))"
  "distance (st (updateStats sp w)) = fadd (distance (st w)) sp"
  "lane (st (updateStats sp w)) = lane (st w)"
  "isRunning (st (updateStats sp w)) = isRunning (st w)"
  "isGameOver (st (updateStats sp w)) = isGameOver (st w)"
  "runnerX (updateStats sp w) = runnerX w"
  "runnerY (updateStats sp w) = runnerY w"
  "obstacles (updateStats sp w) = obstacles w"
  "coins (updateStats sp w) = coins w"
  "scenery (updateStats sp w) = scenery w"
  "trackZ (updateStats sp w) = trackZ w"
  "calls (updateStats sp w) = calls w @
     [OnUpdateStats (score (st w)) (rampSpeed (speed (st w))) (fadd (distance (st w)) sp)]"
  by (simp_all add: updateStats_def rampSpeed_def Let_def)

text \<open>The gameplay part of a tick in closed form.\<close>

lemma gameplay_closed:
  "gameplay d w =
     updateStats (speed (st w))
       (addScore (int (coinCount (speed (st w)) w (coins (spawn d (scroll w)))))
          (((gameOver ^^ hitCount (speed (st w)) w (obstacles (spawn d (scroll w))))
              (spawn d (scroll w)))
           \<lparr>obstacles := filter (\<lambda>ob. \<not> 10 < pz ob)
                (map (moveObstacle (speed (st w))) (obstacles (spawn d (scroll w)))),
             coins := coinsKept (speed (st w)) w (coins (spawn d (scroll w)))\<rparr>))"
proof -
  let ?sp = "speed (st w)"
  let ?w2 = "spawn d (scroll w)"
  let ?hc = "hitCount ?sp w (obstacles ?w2)"
  let ?ok = "filter (\<lambda>ob. \<not> 10 < pz ob) (map (moveObstacle ?sp) (obstacles ?w2))"
  let ?w3 = "((gameOver ^^ ?hc) ?w2)\<lparr>obstacles := ?ok\<rparr>"
  have r2: "runnerX ?w2 = runnerX w" "runnerY ?w2 = runnerY w"
    by (simp_all add: spawn_frame scroll_frame)
  have "obstacleLoop (length (obstacles ?w2)) ?sp ?w2 =
      (gameOver ^^ hitCount ?sp ?w2 (obstacles ?w2)) (?w2\<lparr>obstacles := ?ok @ []\<rparr>)"
    by (rule obstacleLoop_split) simp_all
  also have "hitCount ?sp ?w2 (obstacles ?w2) = ?hc"
    by (simp add: hitCount_def r2)
  finally have l1: "obstacleLoop (length (obstacles ?w2)) ?sp ?w2 = ?w3"
    by (simp add: gameOver_pow_obstacles_update)
  have c3: "coins ?w3 = coins ?w2"
    by (simp add: gameOver_pow_frame)
  have r3: "runnerX ?w3 = runnerX w" "runnerY ?w3 = runnerY w"
    by (simp_all add: gameOver_pow_frame r2)
  have "coinLoop (length (coins ?w3)) ?sp ?w3 =
      addScore (int (coinCount ?sp ?w3 (coins ?w3)))
        (?w3\<lparr>coins := coinsKept ?sp ?w3 (coins ?w3) @ []\<rparr>)"
    by (rule coinLoop_split) simp_all
  also have "coinCount ?sp ?w3 (coins ?w3) = coinCount ?sp w (coins ?w2)"
    by (simp add: coinCount_def r3 c3 del: funpow.simps)
  also have "coinsKept ?sp ?w3 (coins ?w3) = coinsKept ?sp w (coins ?w2)"
    by (simp add: coinsKept_def r3 c3 del: funpow.simps)
  finally have l2: "coinLoop (length (coins ?w3)) ?sp ?w3 =
      addScore (int (coinCount ?sp w (coins ?w2))) (?w3\<lparr>coins := coinsKept ?sp w (coins ?w2)\<rparr>)"
    by simp
  show ?thesis
    unfolding gameplay_def Let_def l1 l2 by simp
qed


lemma gameplay_sel:
  "calls (gameplay d w) = calls w @
     replicate (hitCount (speed (st w)) w (obstacles (spawn d (scroll w))))
       (OnGameOver (score (st w))) @
     [OnUpdateStats (score (st w) + int (coinCount (speed (st w)) w (coins (spawn d (scroll w)))))
        (rampSpeed (speed (st w))) (fadd (distance (st w)) (speed (st w)))]"
  "score (st (gameplay d w)) =
     score (st w) + int (coinCount (speed (st w)) w (coins (spawn d (scroll w))))"
  "speed (st (gameplay d w)) = rampSpeed (speed (st w))"
  "distance (st (gameplay d w)) = fadd (distance (st w)) (speed (st w))"
  "lane (st (gameplay d w)) = lane (st w)"
  "isRunning (st (gameplay d w)) =
     (isRunning (st w) \<and> hitCount (speed (st w)) w (obstacles (spawn d (scroll w))) = 0)"
  "isGameOver (st (gameplay d w)) =
     (isGameOver (st w) \<or> 0 < hitCount (speed (st w)) w (obstacles (spawn d (scroll w))))"
  "runnerX (gameplay d w) = runnerX w"
  "runnerY (gameplay d w) = runnerY w"
  "obstacles (gameplay d w) = filter (\<lambda>ob. \<not> 10 < pz ob)
     (map (moveObstacle (speed (st w))) (obstacles (spawn d (scroll w))))"
  "coins (gameplay d w) = coinsKept (speed (st w)) w (coins (spawn d (scroll w)))"
  unfolding gameplay_closed
  by (simp_all add: updateStats_sel addScore_sel gameOver_pow_st gameOver_pow_calls
      gameOver_pow_frame spawn_frame scroll_frame del: funpow.simps)

lemma animate_not_running:
  "\<not> running w \<Longrightarrow> animate d w = moveRunner w"
  by (simp add: animate_def running_def Let_def moveRunner_frame)

lemma animate_running:
  "running w \<Longrightarrow> animate d w = gameplay d (moveRunner w)"
  by (simp add: animate_def running_def Let_def moveRunner_frame)

lemma spawn_obstacles_scroll: "obstacles (spawn d (scroll w)) = obstacles (spawn d w)"
  by (simp add: spawn_def spawnObstacle_def spawnCoin_def scroll_def Let_def)

lemma spawn_coins_scroll: "coins (spawn d (scroll w)) = coins (spawn d w)"
  by (simp add: spawn_def spawnObstacle_def spawnCoin_def scroll_def Let_def)

lemma spawn_obstacles_moveRunner: "obstacles (spawn d (moveRunner w)) = obstacles (spawn d w)"
  by (simp add: spawn_def spawnObstacle_def spawnCoin_def moveRunner_frame Let_def)

lemma spawn_coins_moveRunner: "coins (spawn d (moveRunner w)) = coins (spawn d w)"
  by (simp add: spawn_def spawnObstacle_def spawnCoin_def moveRunner_frame Let_def)

lemma animate_running_sel:
  assumes "running w"
  shows "calls (animate d w) = calls w @
     replicate (hitCount (speed (st w)) (moveRunner w) (obstacles (spawn d w)))
       (OnGameOver (score (st w))) @
     [OnUpdateStats (score (st (animate d w))) (speed (st (animate d w)))
        (distance (st (animate d w)))]"
  and "score (st (animate d w)) =
     score (st w) + int (coinCount (speed (st w)) (moveRunner w) (coins (spawn d w)))"
  and "speed (st (animate d w)) = rampSpeed (speed (st w))"
  and "distance (st (animate d w)) = fadd (distance (st w)) (speed (st w))"
  and "lane (st (animate d w)) = lane (st w)"
  and "isRunning (st (animate d w)) =
     (hitCount (speed (st w)) (moveRunner w) (obstacles (spawn d w)) = 0)"
  and "isGameOver (st (animate d w)) =
     (0 < hitCount (speed (st w)) (moveRunner w) (obstacles (spawn d w)))"
  and "runnerX (animate d w) = runnerX (moveRunner w)"
  and "runnerY (animate d w) = runnerY (moveRunner w)"
  and "obstacles (animate d w) = filter (\<lambda>ob. \<not> 10 < pz ob)
     (map (moveObstacle (speed (st w))) (obstacles (spawn d w)))"
  and "coins (animate d w) = coinsKept (speed (st w)) (moveRunner w) (coins (spawn d w))"
  using assms
  by (simp_all add: animate_running gameplay_sel moveRunner_frame spawn_obstacles_scroll
      spawn_coins_scroll spawn_obstacles_moveRunner spawn_coins_moveRunner running_def)

section \<open>Invariants along a run\<close>

lemma perform_flags:
  "\<not> (isRunning (st w) \<and> isGameOver (st w)) \<Longrightarrow>
   \<not> (isRunning (st (perform a w)) \<and> isGameOver (st (perform a w)))"
proof (cases a)
  case (Animate d)
  assume inv: "\<not> (isRunning (st w) \<and> isGameOver (st w))"
  show ?thesis
  proof (cases "running w")
    case True
    then show ?thesis
      using inv by (auto simp: Animate animate_running gameplay_sel moveRunner_frame running_def)
  next
    case False
    then show ?thesis
      using inv by (simp add: Animate animate_not_running moveRunner_frame)
  qed
qed (simp_all add: moveLeft_def moveRight_def jump_def startGame_def resetGame_def)

lemma run_flags:
  "\<not> (isRunning (st w) \<and> isGameOver (st w)) \<Longrightarrow>
   \<not> (isRunning (st (run acts w)) \<and> isGameOver (st (run acts w)))"
proof (induction acts arbitrary: w)
  case Nil
  then show ?case by simp
next
  case (Cons a acts)
  show ?case
    unfolding run.simps by (rule Cons.IH) (rule perform_flags [OF Cons.prems])
qed

lemma perform_lane:
  "lane (st w) \<in> {- 1, 0, 1} \<Longrightarrow> lane (st (perform a w)) \<in> {- 1, 0, 1}"
proof (cases a)
  case (Animate d)
  assume "lane (st w) \<in> {- 1, 0, 1}"
  then show ?thesis
    by (cases "running w")
      (simp_all add: Animate animate_running animate_not_running gameplay_sel moveRunner_frame)
qed (auto simp: moveLeft_def moveRight_def jump_def startGame_def resetGame_def)

lemma run_lane:
  "lane (st w) \<in> {- 1, 0, 1} \<Longrightarrow> lane (st (run acts w)) \<in> {- 1, 0, 1}"
proof (induction acts arbitrary: w)
  case Nil
  then show ?case by simp
next
  case (Cons a acts)
  show ?case
    unfolding run.simps by (rule Cons.IH) (rule perform_lane [OF Cons.prems])
qed

lemma perform_idle_fresh:
  assumes "idle w \<longrightarrow> score (st w) = 0 \<and> distance (st w) = 0 \<and> speed (st w) = 1/2"
  shows "idle (perform a w) \<longrightarrow> score (st (perform a w)) = 0 \<and>
     distance (st (perform a w)) = 0 \<and> speed (st (perform a w)) = 1/2"
proof (cases a)
  case (Animate d)
  show ?thesis
  proof (cases "running w")
    case True
    then have "\<not> idle (animate d w)"
      by (auto simp: idle_def animate_running_sel)
    then show ?thesis by (simp add: Animate)
  next
    case False
    then show ?thesis
      using assms by (simp add: Animate animate_not_running moveRunner_frame idle_def)
  qed
qed (use assms in \<open>auto simp: idle_def moveLeft_def moveRight_def jump_def startGame_def
      resetGame_def\<close>)

lemma run_idle_fresh:
  "idle w \<longrightarrow> score (st w) = 0 \<and> distance (st w) = 0 \<and> speed (st w) = 1/2 \<Longrightarrow>
   idle (run acts w) \<longrightarrow> score (st (run acts w)) = 0 \<and>
     distance (st (run acts w)) = 0 \<and> speed (st (run acts w)) = 1/2"
proof (induction acts arbitrary: w)
  case Nil
  then show ?case by simp
next
  case (Cons a acts)
  show ?case
    unfolding run.simps by (rule Cons.IH) (rule perform_idle_fresh [OF Cons.prems])
qed

lemma ticks_not_running:
  "\<not> running w \<Longrightarrow>
   obstacles (run (map Animate ds) w) = obstacles w \<and>
   coins (run (map Animate ds) w) = coins w \<and>
   scenery (run (map Animate ds) w) = scenery w \<and>
   trackZ (run (map Animate ds) w) = trackZ w \<and>
   calls (run (map Animate ds) w) = calls w \<and>
   score (st (run (map Animate ds) w)) = score (st w) \<and>
   speed (st (run (map Animate ds) w)) = speed (st w) \<and>
   distance (st (run (map Animate ds) w)) = distance (st w) \<and>
   lane (st (run (map Animate ds) w)) = lane (st w) \<and>
   isRunning (st (run (map Animate ds) w)) = isRunning (st w) \<and>
   isGameOver (st (run (map Animate ds) w)) = isGameOver (st w)"
proof (induction ds arbitrary: w)
  case Nil
  show ?case by simp
next
  case (Cons d ds)
  have nr: "\<not> running (moveRunner w)"
    using Cons.prems by (simp add: running_def moveRunner_frame)
  show ?case
    using Cons.IH [OF nr] Cons.prems
    by (simp add: animate_not_running moveRunner_frame)
qed

lemma perform_not_running:
  "\<not> running w \<Longrightarrow> a \<noteq> StartGame \<Longrightarrow> a \<noteq> ResetGame \<Longrightarrow>
   \<not> running (perform a w) \<and> calls (perform a w) = calls w"
  by (cases a)
    (auto simp: running_def moveLeft_def moveRight_def jump_def animate_not_running
      moveRunner_frame)

lemma run_not_running:
  "\<not> running w \<Longrightarrow> StartGame \<notin> set acts \<Longrightarrow> ResetGame \<notin> set acts \<Longrightarrow>
   \<not> running (run acts w) \<and> calls (run acts w) = calls w"
proof (induction acts arbitrary: w)
  case Nil
  then show ?case by simp
next
  case (Cons a acts)
  have p: "\<not> running (perform a w) \<and> calls (perform a w) = calls w"
    using Cons.prems by (intro perform_not_running) auto
  have "\<not> running (run acts (perform a w)) \<and> calls (run acts (perform a w)) = calls (perform a w)"
    using p Cons.prems by (intro Cons.IH) auto
  with p show ?case by simp
qed

lemma filter_stats_replicate: "filter isStatsCall (replicate k (OnGameOver n)) = []"
  by (induction k) simp_all

lemma filter_gameOver_replicate:
  "filter isGameOverCall (replicate k (OnGameOver n)) = replicate k (OnGameOver n)"
  by (induction k) simp_all

section \<open>Rounding to binary64\<close>

text \<open>\<open>expo\<close> finds the binade of its argument, so \<open>fl\<close> returns the multiple of the
  spacing of that binade that lies within half a spacing of the argument.\<close>

lemma pow2_powi: "pow2 e = 2 powi e"
  unfolding pow2_def power_int_def
  by (simp add: inverse_eq_divide power_one_over)

lemma pow2_pos: "0 < pow2 e"
  by (simp add: pow2_powi)

lemma pow2_add: "pow2 (a + b) = pow2 a * pow2 b"
  by (simp add: pow2_powi power_int_add)

lemma pow2_mono: "a \<le> b \<Longrightarrow> pow2 a \<le> pow2 b"
  by (simp add: pow2_powi power_int_increasing)

lemma pow2_of_bitlen:
  assumes "0 < a"
  shows "pow2 (bitlen a - 1) \<le> of_int a" and "of_int a < pow2 (bitlen a)"
proof -
  have b: "2 ^ nat (bitlen a - 1) \<le> a" "a < 2 ^ nat (bitlen a)"
    using bitlen_bounds [OF assms] by auto
  have pos: "1 \<le> bitlen a"
    using assms by (simp add: bitlen_alt_def)
  have "pow2 (bitlen a - 1) = of_int (2 ^ nat (bitlen a - 1))"
    using pos by (simp add: pow2_def)
  also have "\<dots> \<le> of_int a"
    using b(1) by (simp only: of_int_le_iff)
  finally show "pow2 (bitlen a - 1) \<le> of_int a" .
  have "(of_int a :: rat) < of_int (2 ^ nat (bitlen a))"
    using b(2) by (simp only: of_int_less_iff)
  also have "\<dots> = pow2 (bitlen a)"
    using pos by (simp add: pow2_def)
  finally show "of_int a < pow2 (bitlen a)" .
qed

lemma expo_bounds:
  assumes "q \<noteq> 0"
  shows "pow2 (expo q) \<le> \<bar>q\<bar> \<and> \<bar>q\<bar> < pow2 (expo q + 1)"
proof -
  obtain a b where ab: "quotient_of \<bar>q\<bar> = (a, b)"
    by (cases "quotient_of \<bar>q\<bar>")
  have bpos: "0 < b" using ab by (rule quotient_of_denom_pos)
  have q: "\<bar>q\<bar> = of_int a / of_int b" using ab by (rule quotient_of_div)
  have "0 < \<bar>q\<bar>" using assms by simp
  then have apos: "0 < a"
    using bpos unfolding q by (simp add: zero_less_divide_iff)
  let ?e = "bitlen a - bitlen b"
  have B: "(0::rat) < of_int b" using bpos by simp
  have up: "\<bar>q\<bar> < pow2 (?e + 1)"
  proof -
    have "of_int a < pow2 (bitlen a)" using apos by (rule pow2_of_bitlen)
    also have "\<dots> = pow2 (?e + 1) * pow2 (bitlen b - 1)"
      by (simp add: pow2_add [symmetric])
    also have "\<dots> \<le> pow2 (?e + 1) * of_int b"
      using pow2_of_bitlen(1) [OF bpos] pow2_pos [of "?e + 1"]
      by (simp add: mult_left_mono)
    finally show ?thesis
      unfolding q using B by (simp add: pos_divide_less_eq)
  qed
  have lo: "pow2 (?e - 1) \<le> \<bar>q\<bar>"
  proof -
    have "pow2 (?e - 1) * of_int b \<le> pow2 (?e - 1) * pow2 (bitlen b)"
      using pow2_of_bitlen(2) [OF bpos] pow2_pos [of "?e - 1"]
      by (simp add: mult_left_mono)
    also have "\<dots> = pow2 (bitlen a - 1)"
      by (simp add: pow2_add [symmetric])
    also have "\<dots> \<le> of_int a" using apos by (rule pow2_of_bitlen)
    finally show ?thesis
      unfolding q using B by (simp add: pos_le_divide_eq)
  qed
  show ?thesis
  proof (cases "pow2 ?e \<le> \<bar>q\<bar>")
    case True
    then have "expo q = ?e" by (simp add: expo_def ab)
    with True up show ?thesis by simp
  next
    case False
    then have "expo q = ?e - 1" by (simp add: expo_def ab)
    with False lo show ?thesis by simp
  qed
qed

lemma expo_unique:
  assumes "pow2 e \<le> \<bar>q\<bar>" and "\<bar>q\<bar> < pow2 (e + 1)"
  shows "expo q = e"
proof -
  have "q \<noteq> 0" using assms(1) pow2_pos [of e] by auto
  then have b: "pow2 (expo q) \<le> \<bar>q\<bar>" "\<bar>q\<bar> < pow2 (expo q + 1)"
    using expo_bounds by auto
  have "\<not> expo q < e"
  proof
    assume "expo q < e"
    then have "pow2 (expo q + 1) \<le> pow2 e" by (intro pow2_mono) simp
    with b(2) assms(1) show False by simp
  qed
  moreover have "\<not> e < expo q"
  proof
    assume "e < expo q"
    then have "pow2 (e + 1) \<le> pow2 (expo q)" by (intro pow2_mono) simp
    with b(1) assms(2) show False by simp
  qed
  ultimately show ?thesis by simp
qed

lemma rne_nearest:
  assumes "\<bar>r - of_int n\<bar> < 1/2"
  shows "rne r = n"
proof -
  have bounds: "of_int n - 1/2 < r" "r < of_int n + 1/2"
    using assms by linarith+
  show ?thesis
  proof (cases "of_int n \<le> r")
    case True
    then have f: "\<lfloor>r\<rfloor> = n"
      using bounds by (intro floor_unique) auto
    show ?thesis
      using bounds by (simp add: rne_def f Let_def)
  next
    case False
    then have f: "\<lfloor>r\<rfloor> = n - 1"
      using bounds by (intro floor_unique) auto
    show ?thesis
      using bounds False by (simp add: rne_def f Let_def)
  qed
qed

lemma fl_nearest:
  assumes "pow2 e \<le> \<bar>q\<bar>" and "\<bar>q\<bar> < pow2 (e + 1)" and "- 1022 \<le> e"
    and "\<bar>q - of_int n * pow2 (e - 52)\<bar> < pow2 (e - 52) / 2"
  shows "fl q = of_int n * pow2 (e - 52)"
proof -
  have "q \<noteq> 0" using assms(1) pow2_pos [of e] by auto
  have e: "expo q = e" using assms(1,2) by (rule expo_unique)
  let ?u = "pow2 (e - 52)"
  have u: "0 < ?u" by (rule pow2_pos)
  have "q / ?u - of_int n = (q - of_int n * ?u) / ?u"
    using u by (simp add: field_simps)
  then have "\<bar>q / ?u - of_int n\<bar> = \<bar>q - of_int n * ?u\<bar> / ?u"
    using u by (simp only: abs_divide abs_of_pos)
  also have "\<dots> < 1/2"
    using assms(4) u by (simp add: pos_divide_less_eq)
  finally have "rne (q / ?u) = n" by (rule rne_nearest)
  then show ?thesis
    using \<open>q \<noteq> 0\<close> assms(3) by (simp add: fl_def e Let_def max_def)
qed

lemma fl_ramp: "fl (1/10000) = 7378697629483821 / 73786976294838206464"
  by code_simp

lemma fl_max_speed: "fl (12/10) = 5404319552844595 / 4503599627370496"
  by code_simp

lemma fl_thresholds:
  "0 < fl (18/10)" "\<not> 1/2 < fl (2/100)" "\<not> 1/2 < fl (3/100)"
  by code_simp+

lemma pow2_values:
  "pow2 0 = 1" "pow2 1 = 2" "pow2 (- 1) = 1/2"
  "pow2 (- 52) = 1 / 4503599627370496" "pow2 (- 53) = 1 / 9007199254740992"
  by (simp_all add: pow2_def)

section \<open>The speed ramp in binary64\<close>

text \<open>From \<open>0.5\<close> the ramp adds the same multiple of \<open>2 ^ -53\<close> on each of the first 5000
  ticks, crosses \<open>1\<close> on the next one, and then adds the same multiple of \<open>2 ^ -52\<close> on
  each tick.\<close>

lemma rampSpeed_below_one:
  assumes "(k::rat) \<le> 4999" and "0 \<le> k"
    and s: "s = (4503599627370496 + k * 900719925474) / 9007199254740992"
    and n: "of_int n = 4503599627370496 + (k + 1) * 900719925474"
  shows "rampSpeed s = (4503599627370496 + (k + 1) * 900719925474) / 9007199254740992"
proof -
  let ?q = "s + 7378697629483821 / 73786976294838206464"
  have lt: "s < fl (12/10)"
    unfolding fl_max_speed s using assms(1) by (simp add: field_simps)
  have q1: "pow2 (- 1) \<le> \<bar>?q\<bar>"
    unfolding s pow2_values using assms(1,2) by (simp add: field_simps)
  have q2: "\<bar>?q\<bar> < pow2 (- 1 + 1)"
    unfolding s using assms(1,2) by (simp add: pow2_values field_simps)
  have near: "\<bar>?q - of_int n * pow2 (- 1 - 52)\<bar> < pow2 (- 1 - 52) / 2"
    unfolding s n using assms(1,2) by (simp add: pow2_values field_simps)
  have "fl ?q = of_int n * pow2 (- 1 - 52)"
    using q1 q2 _ near by (rule fl_nearest) simp
  then show ?thesis
    using lt by (simp add: rampSpeed_def fadd_def fl_ramp n pow2_values)
qed

lemma rampSpeed_above_one:
  assumes "(k::rat) \<le> 1999" and "0 \<le> k"
    and s: "s = (4504049987332985 + k * 450359962737) / 4503599627370496"
    and n: "of_int n = 4504049987332985 + (k + 1) * 450359962737"
  shows "rampSpeed s = (4504049987332985 + (k + 1) * 450359962737) / 4503599627370496"
proof -
  let ?q = "s + 7378697629483821 / 73786976294838206464"
  have lt: "s < fl (12/10)"
    unfolding fl_max_speed s using assms(1) by (simp add: field_simps)
  have q1: "pow2 0 \<le> \<bar>?q\<bar>"
    unfolding s pow2_values using assms(1,2) by (simp add: field_simps)
  have q2: "\<bar>?q\<bar> < pow2 (0 + 1)"
    unfolding s using assms(1,2) by (simp add: pow2_values field_simps)
  have near: "\<bar>?q - of_int n * pow2 (0 - 52)\<bar> < pow2 (0 - 52) / 2"
    unfolding s n using assms(1,2) by (simp add: pow2_values field_simps)
  have "fl ?q = of_int n * pow2 (0 - 52)"
    using q1 q2 _ near by (rule fl_nearest) simp
  then show ?thesis
    using lt by (simp add: rampSpeed_def fadd_def fl_ramp n pow2_values)
qed

lemma ramp_first_phase:
  "k \<le> 5000 \<Longrightarrow>
   (rampSpeed ^^ k) (1/2) = (4503599627370496 + of_nat k * 900719925474) / 9007199254740992"
proof (induction k)
  case 0
  show ?case by simp
next
  case (Suc k)
  then have ih: "(rampSpeed ^^ k) (1/2) =
      (4503599627370496 + of_nat k * 900719925474) / 9007199254740992"
    by simp
  have k: "(of_nat k :: rat) \<le> 4999" "(0::rat) \<le> of_nat k"
    using Suc.prems by (simp_all add: of_nat_le_iff [where 'a = rat, of k 4999, simplified])
  have "rampSpeed ((rampSpeed ^^ k) (1/2)) =
      (4503599627370496 + (of_nat k + 1) * 900719925474) / 9007199254740992"
    using k ih
    by (rule rampSpeed_below_one [where n = "4503599627370496 + (int k + 1) * 900719925474"])
      simp
  then show ?case by simp
qed

lemma ramp_crossing:
  "rampSpeed (9007199254740496 / 9007199254740992) = 4504049987332985 / 4503599627370496"
proof -
  let ?s = "9007199254740496 / 9007199254740992 :: rat"
  let ?q = "?s + 7378697629483821 / 73786976294838206464"
  have lt: "?s < fl (12/10)"
    unfolding fl_max_speed by simp
  have "fl ?q = of_int 4504049987332985 * pow2 (0 - 52)"
    by (rule fl_nearest) (simp_all add: pow2_values)
  then show ?thesis
    using lt by (simp add: rampSpeed_def fadd_def fl_ramp pow2_values)
qed

lemma ramp_second_phase:
  "k \<le> 2000 \<Longrightarrow>
   (rampSpeed ^^ k) (4504049987332985 / 4503599627370496) =
     (4504049987332985 + of_nat k * 450359962737) / 4503599627370496"
proof (induction k)
  case 0
  show ?case by simp
next
  case (Suc k)
  then have ih: "(rampSpeed ^^ k) (4504049987332985 / 4503599627370496) =
      (4504049987332985 + of_nat k * 450359962737) / 4503599627370496"
    by simp
  have k: "(of_nat k :: rat) \<le> 1999" "(0::rat) \<le> of_nat k"
    using Suc.prems by (simp_all add: of_nat_le_iff [where 'a = rat, of k 1999, simplified])
  have "rampSpeed ((rampSpeed ^^ k) (4504049987332985 / 4503599627370496)) =
      (4504049987332985 + (of_nat k + 1) * 450359962737) / 4503599627370496"
    using k ih
    by (rule rampSpeed_above_one [where n = "4504049987332985 + (int k + 1) * 450359962737"])
      simp
  then show ?case by simp
qed

lemma ramp_7001: "(rampSpeed ^^ 7001) (1/2) = 5404769912806985 / 4503599627370496"
proof -
  have a: "(rampSpeed ^^ 5000) (1/2) = 9007199254740496 / 9007199254740992"
    using ramp_first_phase [of 5000] by simp
  have b: "(rampSpeed ^^ 2000) (4504049987332985 / 4503599627370496) =
      5404769912806985 / 4503599627370496"
    using ramp_second_phase [of 2000] by simp
  have "(rampSpeed ^^ 7001) (1/2) = (rampSpeed ^^ (2000 + (1 + 5000))) (1/2)"
    by simp
  also have "\<dots> = (rampSpeed ^^ 2000) (rampSpeed ((rampSpeed ^^ 5000) (1/2)))"
    by (simp only: funpow_add o_apply One_nat_def funpow.simps id_apply)
  also have "\<dots> = 5404769912806985 / 4503599627370496"
    by (simp only: a ramp_crossing b)
  finally show ?thesis .
qed

lemma spawn_quiet: "spawn quiet w = w"
  by (simp only: spawn_def quiet_def draws.simps Let_def fl_thresholds if_False)

lemma tick_quiet_running:
  assumes "running w" and "obstacles w = []"
  shows "running (animate quiet w)" and "obstacles (animate quiet w) = []"
    and "speed (st (animate quiet w)) = rampSpeed (speed (st w))"
  using assms
  by (simp_all add: running_def animate_running_sel spawn_quiet hitCount_def)

lemma run_quiet_speed:
  "running w \<Longrightarrow> obstacles w = [] \<Longrightarrow>
   speed (st (run (replicate n (Animate quiet)) w)) = (rampSpeed ^^ n) (speed (st w))"
proof (induction n arbitrary: w)
  case 0
  show ?case by simp
next
  case (Suc n)
  have "speed (st (run (replicate n (Animate quiet)) (animate quiet w))) =
      (rampSpeed ^^ n) (speed (st (animate quiet w)))"
    using Suc.prems by (intro Suc.IH tick_quiet_running)
  then show ?case
    using Suc.prems by (simp add: tick_quiet_running funpow_swap1)
qed

section \<open>The claims\<close>

subsection \<open>C1: one \<open>onGameOver\<close> per crash\<close>

text \<open>
  Claim C1: a crash calls \<open>onGameOver\<close> once, however many obstacles collide in the tick.
  The obstacle loop has no \<open>break\<close> and \<open>gameOver\<close> has no guard: in the world
  \<open>doubleCrash\<close>, where the runner glides within reach of two obstacles that are both
  inside the band, one tick calls \<open>onGameOver(7)\<close> twice before it reports the statistics.
\<close>

theorem double_game_over:
  "running doubleCrash
   \<and> calls (animate quiet doubleCrash) =
     [OnGameOver 7, OnGameOver 7, OnUpdateStats 7 (rampSpeed (1/2)) (1/2)]"
  by code_simp

text \<open>
  The theorem read as a count: two \<open>onGameOver\<close> calls in one tick of a running world.
\<close>

theorem double_game_over_witness:
  "running doubleCrash
   \<and> length (filter isGameOverCall (calls (animate quiet doubleCrash))) = 2"
  using double_game_over by simp

subsection \<open>C2: \<open>onUpdateStats\<close> once per tick\<close>

text \<open>
  Claim C2, as amended: a tick that starts and ends in the running state, that is a tick
  without a crash, makes exactly one callback, \<open>onUpdateStats\<close> with the score, the speed
  and the distance it leaves; in any other state no action but \<open>startGame\<close> and
  \<open>resetGame\<close> makes a callback or leaves that state, so after the tick of a crash the
  next statistics come only after \<open>resetGame\<close> or \<open>startGame\<close>. What the tick of the crash
  itself reports is not part of the statement.
\<close>

theorem stats_once_without_crash:
  "(running w \<and> running (animate d w) \<longrightarrow>
      calls (animate d w) = calls w @
        [OnUpdateStats (score (st (animate d w))) (speed (st (animate d w)))
           (distance (st (animate d w)))] \<and>
      length (filter isStatsCall (calls (animate d w))) =
        Suc (length (filter isStatsCall (calls w))))
   \<and> (\<not> running w \<and> StartGame \<notin> set acts \<and> ResetGame \<notin> set acts \<longrightarrow>
      calls (run acts w) = calls w \<and> \<not> running (run acts w))"
proof (intro conjI impI)
  assume a: "running w \<and> running (animate d w)"
  then have r: "running w" and "isRunning (st (animate d w))"
    by (simp_all add: running_def)
  then have h: "hitCount (speed (st w)) (moveRunner w) (obstacles (spawn d w)) = 0"
    by (simp add: animate_running_sel(6))
  show c: "calls (animate d w) = calls w @
      [OnUpdateStats (score (st (animate d w))) (speed (st (animate d w)))
         (distance (st (animate d w)))]"
    using animate_running_sel(1) [OF r, of d] by (simp add: h)
  show "length (filter isStatsCall (calls (animate d w))) =
      Suc (length (filter isStatsCall (calls w)))"
    by (subst c) simp
next
  assume a: "\<not> running w \<and> StartGame \<notin> set acts \<and> ResetGame \<notin> set acts"
  then have "\<not> running (run acts w) \<and> calls (run acts w) = calls w"
    by (intro run_not_running) auto
  then show "calls (run acts w) = calls w" "\<not> running (run acts w)" by auto
qed

text \<open>
  The theorem at the started initial world (one report in a tick without a crash) and at
  the idle initial world (a jump and a tick report nothing).
\<close>

theorem stats_once_without_crash_witness:
  "running (startGame (initialWorld []))
   \<and> running (animate quiet (startGame (initialWorld [])))
   \<and> calls (animate quiet (startGame (initialWorld []))) =
       [OnUpdateStats 0 (rampSpeed (1/2)) (1/2)]
   \<and> length (filter isStatsCall (calls (animate quiet (startGame (initialWorld []))))) = 1
   \<and> \<not> running (initialWorld [])
   \<and> StartGame \<notin> set [Jump, Animate quiet] \<and> ResetGame \<notin> set [Jump, Animate quiet]
   \<and> calls (run [Jump, Animate quiet] (initialWorld [])) = []"
proof -
  have r: "running (startGame (initialWorld []))"
    "running (animate quiet (startGame (initialWorld [])))"
    by code_simp+
  have v: "score (st (animate quiet (startGame (initialWorld [])))) = 0"
    "speed (st (animate quiet (startGame (initialWorld [])))) = rampSpeed (1/2)"
    "distance (st (animate quiet (startGame (initialWorld [])))) = 1/2"
    by code_simp+
  have c: "calls (startGame (initialWorld [])) = []" "calls (initialWorld []) = []"
    by (simp_all add: startGame_def initialWorld_def)
  have n: "\<not> running (initialWorld [])"
    by (simp add: running_def initialWorld_def initialState_def)
  have s: "StartGame \<notin> set [Jump, Animate quiet]" "ResetGame \<notin> set [Jump, Animate quiet]"
    by simp_all
  show ?thesis
    using r n s
      stats_once_without_crash [of "startGame (initialWorld [])" quiet "[]"]
      stats_once_without_crash [of "initialWorld []" quiet "[Jump, Animate quiet]"]
    by (simp only: c v) simp
qed

text \<open>
  Claim C2 as stated fails: \<open>startGame\<close> clears \<open>isGameOver\<close>. After the crash of
  \<open>sideSwipe\<close> no \<open>resetGame\<close> is called, and the tick after \<open>startGame\<close>, in which the
  runner has glided out of reach of the obstacle, reports the statistics.
\<close>

theorem stats_after_start_counterexample:
  "running sideSwipe
   \<and> isGameOver (st (animate quiet sideSwipe))
   \<and> \<not> isRunning (st (animate quiet sideSwipe))
   \<and> running (animate quiet (startGame (animate quiet sideSwipe)))
   \<and> calls (animate quiet (startGame (animate quiet sideSwipe))) =
       calls (animate quiet sideSwipe) @
       [OnUpdateStats 0 (rampSpeed (rampSpeed (1/2))) (fadd (1/2) (rampSpeed (1/2)))]"
  by code_simp

subsection \<open>C3: the order inside a tick\<close>

text \<open>
  Claim C3, as amended: in a running tick the runner moves first, then every obstacle and
  every coin is translated by the speed and only then tested against the moved runner, and
  culled last. So the number of \<open>onGameOver\<close> calls, the game-over flag, the score gained
  and the entities that remain are those of the translated obstacles and coins.
\<close>

theorem collisions_after_translation:
  "running w \<Longrightarrow>
   length (filter isGameOverCall (calls (animate d w))) =
     length (filter isGameOverCall (calls w)) +
     hitCount (speed (st w)) (moveRunner w) (obstacles (spawn d w))
   \<and> isGameOver (st (animate d w)) =
     (0 < hitCount (speed (st w)) (moveRunner w) (obstacles (spawn d w)))
   \<and> obstacles (animate d w) = filter (\<lambda>ob. \<not> 10 < pz ob)
       (map (moveObstacle (speed (st w))) (obstacles (spawn d w)))
   \<and> score (st (animate d w)) - score (st w) =
       int (coinCount (speed (st w)) (moveRunner w) (coins (spawn d w)))
   \<and> coins (animate d w) = filter (\<lambda>c. \<not> 10 < pz c)
       (filter (\<lambda>c. \<not> coinHit (runnerX (moveRunner w)) (runnerY (moveRunner w)) c)
          (map (moveCoin (speed (st w))) (coins (spawn d w))))"
  by (simp add: animate_running_sel filter_gameOver_replicate coinsKept_def conj_commute)

text \<open>
  The theorem at the world \<open>grazing\<close>: its obstacle is hit once translated.
\<close>

theorem collisions_after_translation_witness:
  "running grazing
   \<and> length (filter isGameOverCall (calls (animate quiet grazing))) = 1
   \<and> isGameOver (st (animate quiet grazing))
   \<and> obstacles (animate quiet grazing) = [\<lparr>px = 0, py = 1, pz = - (7/4), roty = 0\<rparr>]
   \<and> score (st (animate quiet grazing)) - score (st grazing) = 0
   \<and> coins (animate quiet grazing) = []"
proof -
  have r: "running grazing" by code_simp
  have v: "calls grazing = []"
    "hitCount (speed (st grazing)) (moveRunner grazing) (obstacles (spawn quiet grazing)) = 1"
    "filter (\<lambda>ob. \<not> 10 < pz ob)
       (map (moveObstacle (speed (st grazing))) (obstacles (spawn quiet grazing))) =
     [\<lparr>px = 0, py = 1, pz = - (7/4), roty = 0\<rparr>]"
    "coinCount (speed (st grazing)) (moveRunner grazing) (coins (spawn quiet grazing)) = 0"
    "coins (spawn quiet grazing) = []"
    by code_simp+
  show ?thesis
    using r collisions_after_translation [OF r, of quiet]
    by (simp only: v) (simp add: coinCount_def)
qed

text \<open>
  Claim C3 as stated fails: the obstacle of \<open>grazing\<close> at \<open>z = -2.25\<close> does not satisfy
  the collision test in the pose it has before its translation, and the tick ends the
  game all the same.
\<close>

theorem pre_translation_counterexample:
  "running grazing
   \<and> obstacles grazing = [\<lparr>px = 0, py = 1, pz = - (9/4), roty = 0\<rparr>]
   \<and> \<not> obstacleHit (runnerX (moveRunner grazing)) (runnerY (moveRunner grazing))
       \<lparr>px = 0, py = 1, pz = - (9/4), roty = 0\<rparr>
   \<and> isGameOver (st (animate quiet grazing))
   \<and> calls (animate quiet grazing) = [OnGameOver 0, OnUpdateStats 0 (rampSpeed (1/2)) (1/2)]"
  by code_simp

subsection \<open>C4: \<open>startGame\<close>\<close>

text \<open>
  Claim C4, as amended: \<open>startGame\<close> makes the state running and keeps the score, the
  speed and the distance as they are. In every idle world reached from the initial world
  these are still \<open>0\<close>, \<open>0.5\<close> and \<open>0\<close>, so a start from the idle state has fresh counters.
\<close>

theorem start_keeps_counters:
  "running (startGame w)
   \<and> score (st (startGame w)) = score (st w)
   \<and> speed (st (startGame w)) = speed (st w)
   \<and> distance (st (startGame w)) = distance (st w)
   \<and> (idle (run acts (initialWorld sc)) \<longrightarrow>
        score (st (startGame (run acts (initialWorld sc)))) = 0 \<and>
        distance (st (startGame (run acts (initialWorld sc)))) = 0 \<and>
        speed (st (startGame (run acts (initialWorld sc)))) = 1/2)"
proof -
  have "idle (run acts (initialWorld sc)) \<longrightarrow> score (st (run acts (initialWorld sc))) = 0 \<and>
     distance (st (run acts (initialWorld sc))) = 0 \<and>
     speed (st (run acts (initialWorld sc))) = 1/2"
    by (rule run_idle_fresh) (simp add: initialWorld_def initialState_def)
  then show ?thesis
    by (simp add: startGame_def running_def)
qed

text \<open>
  The theorem at the idle world reached by one \<open>moveLeft\<close>.
\<close>

theorem start_keeps_counters_witness:
  "idle (run [MoveLeft] (initialWorld []))
   \<and> running (startGame (run [MoveLeft] (initialWorld [])))
   \<and> score (st (startGame (run [MoveLeft] (initialWorld [])))) = 0
   \<and> distance (st (startGame (run [MoveLeft] (initialWorld [])))) = 0
   \<and> speed (st (startGame (run [MoveLeft] (initialWorld [])))) = 1/2"
proof -
  have i: "idle (run [MoveLeft] (initialWorld []))"
    by (simp add: idle_def moveLeft_def initialWorld_def initialState_def)
  show ?thesis
    using i start_keeps_counters [of "run [MoveLeft] (initialWorld [])" "[MoveLeft]" "[]"]
    by simp
qed

text \<open>
  Claim C4 as stated fails after a game over: the counters of the crashed run are kept.
\<close>

theorem start_counterexample:
  "isGameOver (st (animate quiet grazing))
   \<and> running (startGame (animate quiet grazing))
   \<and> distance (st (startGame (animate quiet grazing))) = 1/2
   \<and> 1/2 < speed (st (startGame (animate quiet grazing)))"
  by code_simp

subsection \<open>C5: ticks outside the running state\<close>

text \<open>
  Claim C5, as amended: a tick outside the running state is exactly the movement of the
  runner (\<open>moveRunner\<close>: the glide towards the lane and the jump), and any number of such
  ticks leaves the obstacles, the coins, the scenery, the track, the callbacks, the score,
  the speed, the distance, the lane and both flags as they are.
\<close>

theorem idle_ticks_skip_gameplay:
  "\<not> running w \<Longrightarrow>
   animate d w = moveRunner w \<and>
   obstacles (run (map Animate ds) w) = obstacles w \<and>
   coins (run (map Animate ds) w) = coins w \<and>
   scenery (run (map Animate ds) w) = scenery w \<and>
   trackZ (run (map Animate ds) w) = trackZ w \<and>
   calls (run (map Animate ds) w) = calls w \<and>
   score (st (run (map Animate ds) w)) = score (st w) \<and>
   speed (st (run (map Animate ds) w)) = speed (st w) \<and>
   distance (st (run (map Animate ds) w)) = distance (st w) \<and>
   lane (st (run (map Animate ds) w)) = lane (st w) \<and>
   isRunning (st (run (map Animate ds) w)) = isRunning (st w) \<and>
   isGameOver (st (run (map Animate ds) w)) = isGameOver (st w)"
  using ticks_not_running [of w ds] by (simp add: animate_not_running)

text \<open>
  The theorem at the initial world, for two ticks.
\<close>

theorem idle_ticks_skip_gameplay_witness:
  "\<not> running (initialWorld [])
   \<and> animate quiet (initialWorld []) = moveRunner (initialWorld [])
   \<and> obstacles (run (map Animate [quiet, quiet]) (initialWorld [])) = []
   \<and> coins (run (map Animate [quiet, quiet]) (initialWorld [])) = []
   \<and> calls (run (map Animate [quiet, quiet]) (initialWorld [])) = []
   \<and> score (st (run (map Animate [quiet, quiet]) (initialWorld []))) = 0
   \<and> speed (st (run (map Animate [quiet, quiet]) (initialWorld []))) = 1/2
   \<and> distance (st (run (map Animate [quiet, quiet]) (initialWorld []))) = 0"
proof -
  have n: "\<not> running (initialWorld [])"
    by (simp add: running_def initialWorld_def initialState_def)
  have v: "obstacles (initialWorld []) = []" "coins (initialWorld []) = []"
    "calls (initialWorld []) = []" "score (st (initialWorld [])) = 0"
    "speed (st (initialWorld [])) = 1/2" "distance (st (initialWorld [])) = 0"
    by (simp_all add: initialWorld_def initialState_def)
  show ?thesis
    using n idle_ticks_skip_gameplay [OF n, of quiet "[quiet, quiet]"]
    by (simp only: v) simp
qed

text \<open>
  Claim C5 as stated fails: the movement of the runner is before the guard of \<open>animate\<close>.
  In the idle state a \<open>moveLeft\<close> is followed by a glide of the runner; after a crash in
  the middle of a lane change the runner goes on gliding.
\<close>

theorem idle_physics_counterexample:
  "idle (moveLeft (initialWorld []))
   \<and> runnerX (moveLeft (initialWorld [])) = 0
   \<and> runnerX (animate quiet (moveLeft (initialWorld []))) = - (3/4)
   \<and> isGameOver (st (animate quiet (moveRight grazing)))
   \<and> runnerX (animate quiet (moveRight grazing)) = 3/4
   \<and> 3/4 < runnerX (animate quiet (animate quiet (moveRight grazing)))"
  by code_simp

subsection \<open>C6: the speed cap\<close>

text \<open>
  Claim C6: from the initial speed \<open>0.5\<close> the speed never exceeds \<open>1.2\<close>. The code adds
  \<open>0.0001\<close> while \<open>speed < 1.2\<close>. In binary64 the speed after 7000 running ticks is just
  below \<open>1.2\<close>, so tick 7001 adds once more: the speed ends above \<open>1.2\<close>.
\<close>

theorem speed_exceeds_cap:
  "speed (st (run (replicate 7001 (Animate quiet)) (startGame (initialWorld [])))) =
     5404769912806985 / 4503599627370496
   \<and> 12/10 < speed (st (run (replicate 7001 (Animate quiet)) (startGame (initialWorld []))))"
proof -
  have "speed (st (run (replicate 7001 (Animate quiet)) (startGame (initialWorld [])))) =
      (rampSpeed ^^ 7001) (speed (st (startGame (initialWorld []))))"
    by (rule run_quiet_speed)
      (simp_all add: running_def startGame_def initialWorld_def initialState_def)
  also have "speed (st (startGame (initialWorld []))) = 1/2"
    by (simp add: startGame_def initialWorld_def initialState_def)
  finally show ?thesis
    by (simp add: ramp_7001)
qed

text \<open>
  The speed reached is also above the binary64 value of the literal \<open>1.2\<close>, with which
  the guard compares.
\<close>

theorem speed_exceeds_cap_witness:
  "fl (12/10) < speed (st (run (replicate 7001 (Animate quiet)) (startGame (initialWorld []))))"
  using speed_exceeds_cap unfolding fl_max_speed by simp

subsection \<open>C7: \<open>resetGame\<close>\<close>

text \<open>
  Claim C7: from any world \<open>resetGame\<close> gives the running state with lane \<open>0\<close>, speed
  \<open>0.5\<close>, distance \<open>0\<close>, score \<open>0\<close>, no jump, no game over, the runner at the origin and
  neither obstacle nor coin left.
\<close>

theorem reset_reinitialises:
  "st (resetGame w) = \<lparr>score = 0, speed = 1/2, distance = 0, lane = 0, isRunning = True,
       isGameOver = False, isJumping = False, jumpVelocity = 0, cameraOffset = 0\<rparr>
   \<and> running (resetGame w)
   \<and> obstacles (resetGame w) = [] \<and> coins (resetGame w) = []
   \<and> runnerX (resetGame w) = 0 \<and> runnerY (resetGame w) = 0"
  by (simp add: resetGame_def running_def)

subsection \<open>C8: coins\<close>

text \<open>
  Claim C8: in a running tick every coin that satisfies the collision test adds exactly
  \<open>1\<close> to the score and leaves the store in that tick; no coin that remains in the store
  satisfies the test, and the coins counted and the coins kept are distinct entries of the
  store.
\<close>

theorem coin_consumed_once:
  "running w \<Longrightarrow>
   score (st (animate d w)) =
     score (st w) + int (coinCount (speed (st w)) (moveRunner w) (coins (spawn d w)))
   \<and> coins (animate d w) = coinsKept (speed (st w)) (moveRunner w) (coins (spawn d w))
   \<and> (\<forall>c \<in> set (coins (animate d w)).
        \<not> coinHit (runnerX (animate d w)) (runnerY (animate d w)) c)
   \<and> coinCount (speed (st w)) (moveRunner w) (coins (spawn d w)) +
       length (coins (animate d w)) \<le> length (coins (spawn d w))"
proof -
  assume r: "running w"
  let ?sp = "speed (st w)" and ?cs = "coins (spawn d w)"
  have len: "coinCount ?sp (moveRunner w) ?cs + length (coinsKept ?sp (moveRunner w) ?cs)
      \<le> length ?cs"
  proof -
    have "length (filter P xs) + length (filter (\<lambda>c. \<not> P c \<and> Q c) xs) \<le> length xs"
      for P Q :: "mesh \<Rightarrow> bool" and xs
      by (induction xs) auto
    from this [where xs = "map (moveCoin ?sp) ?cs"] show ?thesis
      unfolding coinCount_def coinsKept_def by simp
  qed
  show ?thesis
    using r len by (simp add: animate_running_sel) (simp add: coinsKept_def)
qed

text \<open>
  The theorem at the world \<open>coinAhead\<close>: the near coin is counted and removed, the far
  one stays.
\<close>

theorem coin_consumed_once_witness:
  "running coinAhead
   \<and> score (st coinAhead) = 0
   \<and> score (st (animate quiet coinAhead)) = 1
   \<and> coins (animate quiet coinAhead) = [\<lparr>px = 0, py = 3/2, pz = - (199/2), roty = fl (1/10)\<rparr>]
   \<and> \<not> coinHit (runnerX (animate quiet coinAhead)) (runnerY (animate quiet coinAhead))
        \<lparr>px = 0, py = 3/2, pz = - (199/2), roty = fl (1/10)\<rparr>"
proof -
  have r: "running coinAhead" by code_simp
  have v: "score (st coinAhead) = 0"
    "coinCount (speed (st coinAhead)) (moveRunner coinAhead) (coins (spawn quiet coinAhead)) = 1"
    "coinsKept (speed (st coinAhead)) (moveRunner coinAhead) (coins (spawn quiet coinAhead)) =
       [\<lparr>px = 0, py = 3/2, pz = - (199/2), roty = fl (1/10)\<rparr>]"
    by code_simp+
  show ?thesis
    using r coin_consumed_once [OF r, of quiet]
    by (simp only: v) simp
qed

subsection \<open>C9: the lane\<close>

text \<open>
  Claim C9: in every world reached from the initial one the lane is \<open>-1\<close>, \<open>0\<close> or \<open>1\<close>;
  \<open>moveLeft\<close> and \<open>moveRight\<close> step it by one within these bounds, change nothing at the
  bound, and change nothing after a game over.
\<close>

theorem lane_in_range:
  "lane (st (run acts (initialWorld sc))) \<in> {- 1, 0, 1}
   \<and> (lane (st w) \<in> {- 1, 0, 1} \<and> \<not> isGameOver (st w) \<longrightarrow>
        lane (st (moveLeft w)) = max (- 1) (lane (st w) - 1) \<and>
        lane (st (moveRight w)) = min 1 (lane (st w) + 1))
   \<and> (lane (st w) = - 1 \<longrightarrow> moveLeft w = w)
   \<and> (lane (st w) = 1 \<longrightarrow> moveRight w = w)
   \<and> (isGameOver (st w) \<longrightarrow> moveLeft w = w \<and> moveRight w = w)"
proof (intro conjI impI)
  show "lane (st (run acts (initialWorld sc))) \<in> {- 1, 0, 1}"
    by (rule run_lane) (simp add: initialWorld_def initialState_def)
  show "lane (st (moveLeft w)) = max (- 1) (lane (st w) - 1)"
    if "lane (st w) \<in> {- 1, 0, 1} \<and> \<not> isGameOver (st w)"
    using that by (auto simp: moveLeft_def)
  show "lane (st (moveRight w)) = min 1 (lane (st w) + 1)"
    if "lane (st w) \<in> {- 1, 0, 1} \<and> \<not> isGameOver (st w)"
    using that by (auto simp: moveRight_def)
  show "moveLeft w = w" if "lane (st w) = - 1"
    using that by (simp add: moveLeft_def)
  show "moveRight w = w" if "lane (st w) = 1"
    using that by (simp add: moveRight_def)
  show "moveLeft w = w" if "isGameOver (st w)"
    using that by (simp add: moveLeft_def)
  show "moveRight w = w" if "isGameOver (st w)"
    using that by (simp add: moveRight_def)
qed

text \<open>
  The theorem at the initial world, at both bounds and after a game over.
\<close>

theorem lane_in_range_witness:
  "lane (st (initialWorld [])) \<in> {- 1, 0, 1} \<and> \<not> isGameOver (st (initialWorld []))
   \<and> lane (st (moveLeft (initialWorld []))) = - 1
   \<and> lane (st (moveRight (initialWorld []))) = 1
   \<and> moveLeft (moveLeft (initialWorld [])) = moveLeft (initialWorld [])
   \<and> moveRight (moveRight (initialWorld [])) = moveRight (initialWorld [])
   \<and> isGameOver (st (gameOver (initialWorld [])))
   \<and> moveLeft (gameOver (initialWorld [])) = gameOver (initialWorld [])
   \<and> moveRight (gameOver (initialWorld [])) = gameOver (initialWorld [])"
proof -
  have a: "lane (st (initialWorld [])) \<in> {- 1, 0, 1} \<and> \<not> isGameOver (st (initialWorld []))"
    by (simp add: initialWorld_def initialState_def)
  have b: "lane (st (moveLeft (initialWorld []))) = - 1"
    using a lane_in_range [of "[]" "[]" "initialWorld []"]
    by (simp add: initialWorld_def initialState_def)
  have c: "lane (st (moveRight (initialWorld []))) = 1"
    using a lane_in_range [of "[]" "[]" "initialWorld []"]
    by (simp add: initialWorld_def initialState_def)
  have d: "isGameOver (st (gameOver (initialWorld [])))"
    by (simp add: gameOver_sel)
  show ?thesis
    using a b c d lane_in_range [of "[]" "[]" "moveLeft (initialWorld [])"]
      lane_in_range [of "[]" "[]" "moveRight (initialWorld [])"]
      lane_in_range [of "[]" "[]" "gameOver (initialWorld [])"]
    by simp
qed

subsection \<open>C10: the two flags\<close>

text \<open>
  Claim C10: \<open>isRunning\<close> and \<open>isGameOver\<close> are never both true: not in any world
  reached from the initial one, and every action as well as \<open>gameOver\<close> keeps it so.
\<close>

theorem flags_exclusive:
  "\<not> (isRunning (st (run acts (initialWorld sc))) \<and> isGameOver (st (run acts (initialWorld sc))))
   \<and> (\<not> (isRunning (st w) \<and> isGameOver (st w)) \<longrightarrow>
        \<not> (isRunning (st (perform a w)) \<and> isGameOver (st (perform a w))))
   \<and> \<not> (isRunning (st (gameOver w)) \<and> isGameOver (st (gameOver w)))"
proof (intro conjI impI)
  show "\<not> (isRunning (st (run acts (initialWorld sc))) \<and>
      isGameOver (st (run acts (initialWorld sc))))"
    by (rule run_flags) (simp add: initialWorld_def initialState_def)
  show "\<not> (isRunning (st (perform a w)) \<and> isGameOver (st (perform a w)))"
    if "\<not> (isRunning (st w) \<and> isGameOver (st w))"
    using that by (rule perform_flags)
  show "\<not> (isRunning (st (gameOver w)) \<and> isGameOver (st (gameOver w)))"
    by (simp add: gameOver_sel)
qed

text \<open>
  The theorem at the initial world and the action \<open>startGame\<close>.
\<close>

theorem flags_exclusive_witness:
  "\<not> (isRunning (st (initialWorld [])) \<and> isGameOver (st (initialWorld [])))
   \<and> \<not> (isRunning (st (perform StartGame (initialWorld []))) \<and>
          isGameOver (st (perform StartGame (initialWorld []))))"
  using flags_exclusive [of "[]" "[]" "initialWorld []" StartGame]
  by (simp add: initialWorld_def initialState_def)

end
